theory Spec2Isabelle
  imports Main "HOL-Library.Sublist"
begin

section \<open>The persistent bash session of \<^verbatim>\<open>scripts/bash_tool.py\<close>\<close>

text \<open>
  The theory embeds the two classes of \<^verbatim>\<open>scripts/bash_tool.py\<close>: \<^verbatim>\<open>_BashSession\<close>
  (\<^verbatim>\<open>start\<close>, \<^verbatim>\<open>stop\<close>, \<^verbatim>\<open>run\<close>) and \<^verbatim>\<open>BashTool\<close> (\<^verbatim>\<open>forward\<close>).

  Conventions of the embedding.
  \<^item> Byte strings are \<open>string\<close> (a \<open>char\<close> is a byte). A Python \<^verbatim>\<open>str\<close> is represented
    by its UTF-8 encoding, so \<^verbatim>\<open>command.encode()\<close> is the identity and
    \<^verbatim>\<open>buffer.decode()\<close> is a check that the bytes are well-formed UTF-8, raising
    \<^verbatim>\<open>UnicodeDecodeError\<close> otherwise. The sentinel is ASCII, so searching it in the
    encoded text finds the same place as searching it in the decoded text.
  \<^item> The shell is the environment. What it does with the bytes written to its standard
    input is not modelled; what it writes back is given to \<open>run\<close> as a schedule: one
    pair of chunks (standard output, standard error) for each \<^verbatim>\<open>asyncio.sleep\<close> of the
    polling loop that completes before \<^verbatim>\<open>asyncio.timeout\<close> fires. When the schedule is
    used up the timeout fires. The exit of the shell is the field \<open>returncode\<close>, which
    the environment may set between two calls.
  \<^item> Spawning the shell succeeds: a failure of \<^verbatim>\<open>create_subprocess_shell\<close> and of the
    write to the pipe are faults of the operating system, outside the embedding.
  \<^item> An exception is a value \<open>Inl e\<close>, a returned dictionary a value \<open>Inr d\<close>; a
    dictionary is the list of its items in insertion order. Every operation returns
    the state it leaves behind together with its outcome.
\<close>

subsection \<open>Data\<close>

datatype signal = SIGTERM

record process =
  returncode :: "int option"
  stdin :: string
  stdout_buffer :: string
  stderr_buffer :: string
  signals :: "signal list"

record bash_session =
  started :: bool
  timed_out :: bool
  process :: "process option"

record bash_tool =
  session :: "bash_session option"

datatype exn =
  Exception string
  | TimeoutError
  | UnicodeDecodeError
  | AttributeError

type_synonym dict = "(string \<times> string) list"

type_synonym schedule = "(string \<times> string) list"

subsection \<open>Strings\<close>

text \<open>\<^verbatim>\<open>_sentinel = "<<exit>>"\<close> and \<^verbatim>\<open>_timeout = 120.0\<close>, as \<^verbatim>\<open>str\<close> prints it.\<close>

definition sentinel :: string where
  "sentinel = ''<<exit>>''"

definition timeout_repr :: string where
  "timeout_repr = ''120.0''"

text \<open>
  \<^verbatim>\<open>needle in text\<close> and \<^verbatim>\<open>text.index(needle)\<close>: the position of the first occurrence,
  \<open>None\<close> when there is none.
\<close>

fun find_sub :: "string \<Rightarrow> string \<Rightarrow> nat option" where
  "find_sub needle [] = (if needle = [] then Some 0 else None)"
| "find_sub needle (c # cs) =
     (if prefix needle (c # cs) then Some 0 else map_option Suc (find_sub needle cs))"

text \<open>\<^verbatim>\<open>if text.endswith("\n"): text = text[:-1]\<close>\<close>

definition strip_newline :: "string \<Rightarrow> string" where
  "strip_newline text = (if text \<noteq> [] \<and> last text = CHR 0x0A then butlast text else text)"

text \<open>
  Well-formed UTF-8, on the values of the bytes: the table of the Unicode standard
  (no overlong form, no surrogate, nothing above U+10FFFF), which is what the strict
  decoder of Python accepts.
\<close>

definition between :: "nat \<Rightarrow> nat \<Rightarrow> nat \<Rightarrow> bool" where
  "between lo hi b = (lo \<le> b \<and> b \<le> hi)"

fun utf8 :: "nat list \<Rightarrow> bool" where
  "utf8 [] = True"
| "utf8 (b # bs) =
     (if b < 0x80 then utf8 bs
      else if between 0xC2 0xDF b then
        (case bs of b1 # r \<Rightarrow> between 0x80 0xBF b1 \<and> utf8 r | _ \<Rightarrow> False)
      else if between 0xE0 0xEF b then
        (case bs of b1 # b2 # r \<Rightarrow>
           between (if b = 0xE0 then 0xA0 else 0x80) (if b = 0xED then 0x9F else 0xBF) b1
           \<and> between 0x80 0xBF b2 \<and> utf8 r
         | _ \<Rightarrow> False)
      else if between 0xF0 0xF4 b then
        (case bs of b1 # b2 # b3 # r \<Rightarrow>
           between (if b = 0xF0 then 0x90 else 0x80) (if b = 0xF4 then 0x8F else 0xBF) b1
           \<and> between 0x80 0xBF b2 \<and> between 0x80 0xBF b3 \<and> utf8 r
         | _ \<Rightarrow> False)
      else False)"

definition decode :: "string \<Rightarrow> exn + string" where
  "decode bytes = (if utf8 (map of_char bytes) then Inr bytes else Inl UnicodeDecodeError)"

text \<open>An integer inside an f-string: its decimal digits, with a sign when negative.\<close>

fun digits :: "nat \<Rightarrow> string" where
  "digits n =
     (if n < 10 then [''0123456789'' ! n]
      else digits (n div 10) @ [''0123456789'' ! (n mod 10)])"

definition str_int :: "int \<Rightarrow> string" where
  "str_int i = (if i < 0 then CHR ''-'' # digits (nat (- i)) else digits (nat i))"

subsection \<open>\<^verbatim>\<open>_BashSession\<close>\<close>

text \<open>\<^verbatim>\<open>__init__\<close>: neither started nor timed out; \<^verbatim>\<open>_process\<close> is not set yet.\<close>

definition new_session :: bash_session where
  "new_session = \<lparr>started = False, timed_out = False, process = None\<rparr>"

text \<open>The process \<^verbatim>\<open>create_subprocess_shell\<close> returns: running, nothing written or read.\<close>

definition spawned :: process where
  "spawned = \<lparr>returncode = None, stdin = [], stdout_buffer = [], stderr_buffer = [],
     signals = []\<rparr>"

definition start :: "bash_session \<Rightarrow> bash_session" where
  "start s = (if started s then s else s\<lparr>process := Some spawned, started := True\<rparr>)"

text \<open>\<^verbatim>\<open>Process.terminate()\<close> sends SIGTERM to the shell.\<close>

definition terminate :: "process \<Rightarrow> process" where
  "terminate p = p\<lparr>signals := signals p @ [SIGTERM]\<rparr>"

definition not_started :: exn where
  "not_started = Exception ''Session has not started.''"

definition stop :: "bash_session \<Rightarrow> exn + bash_session" where
  "stop s =
     (if \<not> started s then Inl not_started
      else case process s of
        None \<Rightarrow> Inl AttributeError
      | Some p \<Rightarrow>
          (case returncode p of
             Some rc \<Rightarrow> Inr s
           | None \<Rightarrow> Inr (s\<lparr>process := Some (terminate p)\<rparr>)))"

text \<open>The two values \<^verbatim>\<open>run\<close> builds from its fields.\<close>

definition timed_out_exn :: exn where
  "timed_out_exn = Exception (''timed out: bash has not returned in '' @ timeout_repr
     @ '' seconds and must be restarted'')"

definition must_restart :: "int \<Rightarrow> dict" where
  "must_restart rc = [(''system'', ''tool must be restarted''),
     (''error'', ''bash has exited with returncode '' @ str_int rc)]"

text \<open>What \<^verbatim>\<open>run\<close> writes after the command: \<^verbatim>\<open>f"; echo '{self._sentinel}'\n"\<close>.\<close>

definition echo_sentinel :: string where
  "echo_sentinel = ''; echo '' @ [CHR 0x27] @ sentinel @ [CHR 0x27, CHR 0x0A]"

text \<open>
  The polling loop under \<^verbatim>\<open>asyncio.timeout\<close>. Each round sleeps, during which the next
  chunks of the schedule reach the two buffers, then decodes the whole standard-output
  buffer and looks for the sentinel; when it is there the text before its first
  occurrence is the output. No round left: \<^verbatim>\<open>asyncio.TimeoutError\<close>.
\<close>

fun poll :: "process \<Rightarrow> schedule \<Rightarrow> (exn + string) \<times> process" where
  "poll p [] = (Inl TimeoutError, p)"
| "poll p ((out, err) # sched) =
     (let p' = p\<lparr>stdout_buffer := stdout_buffer p @ out,
                 stderr_buffer := stderr_buffer p @ err\<rparr>
      in case decode (stdout_buffer p') of
           Inl e \<Rightarrow> (Inl e, p')
         | Inr output \<Rightarrow>
             (case find_sub sentinel output of
                Some i \<Rightarrow> (Inr (take i output), p')
              | None \<Rightarrow> poll p' sched))"

definition run :: "bash_session \<Rightarrow> string \<Rightarrow> schedule \<Rightarrow> (exn + dict) \<times> bash_session" where
  "run s command sched =
     (if \<not> started s then (Inl not_started, s)
      else case process s of
        None \<Rightarrow> (Inl AttributeError, s)
      | Some p \<Rightarrow>
          (case returncode p of
             Some rc \<Rightarrow> (Inr (must_restart rc), s)
           | None \<Rightarrow>
               if timed_out s then (Inl timed_out_exn, s)
               else
                 (case poll (p\<lparr>stdin := stdin p @ command @ echo_sentinel\<rparr>) sched of
                    (Inl TimeoutError, p') \<Rightarrow>
                      (Inl timed_out_exn, s\<lparr>process := Some p', timed_out := True\<rparr>)
                  | (Inl e, p') \<Rightarrow> (Inl e, s\<lparr>process := Some p'\<rparr>)
                  | (Inr output, p') \<Rightarrow>
                      (case decode (stderr_buffer p') of
                         Inl e \<Rightarrow> (Inl e, s\<lparr>process := Some p'\<rparr>)
                       | Inr error \<Rightarrow>
                           (Inr [(''output'', strip_newline output),
                                 (''error'', strip_newline error)],
                            s\<lparr>process :=
                                Some (p'\<lparr>stdout_buffer := [], stderr_buffer := []\<rparr>)\<rparr>)))))"

subsection \<open>\<^verbatim>\<open>BashTool\<close>\<close>

definition restarted :: dict where
  "restarted = [(''system'', ''tool has been restarted'')]"

definition no_command :: exn where
  "no_command = Exception ''no command provided.''"

text \<open>
  \<^verbatim>\<open>forward(command, restart)\<close>; \<open>restart\<close> is \<^verbatim>\<open>Optional[bool]\<close>, and \<^verbatim>\<open>if restart\<close>
  holds for \<^verbatim>\<open>True\<close> only. A session object is always truthy, so \<^verbatim>\<open>if self._session\<close>
  asks whether there is one. The schedule is passed on to \<open>run\<close>.

  Besides its outcome and the tool it leaves, \<open>forward\<close> gives the session it has
  stopped and replaced, as the call leaves it (\<open>None\<close> when it has replaced none). The
  tool no longer refers to that session, but its shell is a process of the operating
  system, and what the call did to it is an effect of the call.
\<close>

definition forward ::
  "bash_tool \<Rightarrow> string \<Rightarrow> bool option \<Rightarrow> schedule
     \<Rightarrow> (exn + dict) \<times> bash_tool \<times> bash_session option" where
  "forward t command restart sched =
     (if restart = Some True then
        (case session t of
           None \<Rightarrow> (Inr restarted, t\<lparr>session := Some (start new_session)\<rparr>, None)
         | Some s \<Rightarrow>
             (case stop s of
                Inl e \<Rightarrow> (Inl e, t, None)
              | Inr s' \<Rightarrow>
                  (Inr restarted, t\<lparr>session := Some (start new_session)\<rparr>, Some s')))
      else
        (let s = (case session t of None \<Rightarrow> start new_session | Some s \<Rightarrow> s);
             t' = t\<lparr>session := Some s\<rparr>
         in if command \<noteq> [] then
              (case run s command sched of (r, s') \<Rightarrow> (r, t'\<lparr>session := Some s'\<rparr>, None))
            else (Inl no_command, t', None)))"

subsection \<open>The shell between two calls\<close>

text \<open>
  The event loop feeds the two \<^verbatim>\<open>StreamReader\<close> buffers whenever the shell or one of its
  jobs prints, also while no \<^verbatim>\<open>run\<close> is waiting: \<open>arrive out err s\<close> is the session
  \<open>s\<close> after \<open>out\<close> and \<open>err\<close> have reached its buffers between two calls.
\<close>

definition arrive :: "string \<Rightarrow> string \<Rightarrow> bash_session \<Rightarrow> bash_session" where
  "arrive out err s =
     s\<lparr>process := map_option
         (\<lambda>p. p\<lparr>stdout_buffer := stdout_buffer p @ out,
                 stderr_buffer := stderr_buffer p @ err\<rparr>) (process s)\<rparr>"

section \<open>Properties of the sentinel search and of the polling loop\<close>

text \<open>
  The sentinel has no border: no proper non-empty prefix of it is also a suffix. So an
  occurrence of the sentinel cannot start inside text that does not hold it and end
  inside a sentinel that follows.
\<close>

lemma sentinel_no_overlap:
  assumes "prefix sentinel (a @ sentinel @ t)" and "a \<noteq> []"
  shows "prefix sentinel a"
proof -
  from assms(1) have "prefix sentinel a \<or> (\<exists>us. sentinel = a @ us \<and> prefix us (sentinel @ t))"
    by (simp add: prefix_append)
  then show ?thesis
  proof
    assume "prefix sentinel a" then show ?thesis .
  next
    assume "\<exists>us. sentinel = a @ us \<and> prefix us (sentinel @ t)"
    then obtain us where us: "sentinel = a @ us" "prefix us (sentinel @ t)" by blast
    from us(1) have "prefix a sentinel" unfolding prefix_def by blast
    then have "a \<in> set (prefixes ''<<exit>>'')"
      unfolding sentinel_def in_set_prefixes .
    then consider "a = []" | "a = ''<''" | "a = ''<<''" | "a = ''<<e''" | "a = ''<<ex''"
      | "a = ''<<exi''" | "a = ''<<exit''" | "a = ''<<exit>''" | "a = ''<<exit>>''"
      by (auto simp del: in_set_prefixes)
    then show ?thesis
    proof cases
      case 1
      with assms(2) show ?thesis by simp
    next
      case 9
      then show ?thesis by (simp add: sentinel_def)
    qed (use us in \<open>auto simp: sentinel_def\<close>)
  qed
qed

lemma find_sub_Nil_needle [simp]: "find_sub [] xs = Some 0"
  by (cases xs) simp_all

lemma find_sub_append_sentinel:
  "find_sub sentinel a = None \<Longrightarrow> find_sub sentinel (a @ sentinel @ t) = Some (length a)"
proof (induction a)
  case Nil
  then show ?case by (simp add: sentinel_def)
next
  case (Cons c a)
  from Cons.prems have np: "\<not> prefix sentinel (c # a)" and rest: "find_sub sentinel a = None"
    by (auto split: if_splits)
  have "\<not> prefix sentinel ((c # a) @ sentinel @ t)"
    using sentinel_no_overlap [of "c # a" t] np by blast
  with Cons.IH [OF rest] show ?case by simp
qed

lemma find_sub_Some_split:
  "find_sub needle xs = Some i \<Longrightarrow> \<exists>after. xs = take i xs @ needle @ after"
proof (induction xs arbitrary: i)
  case Nil
  then show ?case by (auto split: if_splits)
next
  case (Cons c cs)
  show ?case
  proof (cases "prefix needle (c # cs)")
    case True
    with Cons.prems have "i = 0" by simp
    with True show ?thesis by (auto simp: prefix_def)
  next
    case False
    with Cons.prems obtain j where j: "find_sub needle cs = Some j" "i = Suc j" by auto
    from Cons.IH [OF j(1)] obtain after where "cs = take j cs @ needle @ after" by blast
    with j(2) show ?thesis by (intro exI [of _ after]) simp
  qed
qed

lemma find_sub_Some_le: "find_sub needle xs = Some i \<Longrightarrow> i \<le> length xs"
  by (induction xs arbitrary: i) (auto split: if_splits)

lemma decode_cases: "decode b = Inr b \<or> decode b = Inl UnicodeDecodeError"
  by (simp add: decode_def)

text \<open>
  The loop, round by round. While every round decodes its buffer and finds no
  sentinel, the loop goes on with the chunks added to the buffers; when no round is
  left it times out; when it returns an output, some round found the sentinel.
\<close>

lemma poll_wait:
  assumes "\<forall>k. 0 < k \<and> k \<le> length pre \<longrightarrow>
     decode (stdout_buffer p @ concat (map fst (take k pre)))
       = Inr (stdout_buffer p @ concat (map fst (take k pre)))
     \<and> find_sub sentinel (stdout_buffer p @ concat (map fst (take k pre))) = None"
  shows "poll p (pre @ rest) =
     poll (p\<lparr>stdout_buffer := stdout_buffer p @ concat (map fst pre),
             stderr_buffer := stderr_buffer p @ concat (map snd pre)\<rparr>) rest"
  using assms
proof (induction pre arbitrary: p)
  case Nil
  then show ?case by simp
next
  case (Cons c pre)
  obtain out err where c: "c = (out, err)" by (cases c)
  define p1 where "p1 = p\<lparr>stdout_buffer := stdout_buffer p @ out,
    stderr_buffer := stderr_buffer p @ err\<rparr>"
  have first: "decode (stdout_buffer p @ out) = Inr (stdout_buffer p @ out)"
    "find_sub sentinel (stdout_buffer p @ out) = None"
    using Cons.prems [rule_format, of 1] by (simp_all add: c)
  have later: "\<forall>k. 0 < k \<and> k \<le> length pre \<longrightarrow>
     decode (stdout_buffer p1 @ concat (map fst (take k pre)))
       = Inr (stdout_buffer p1 @ concat (map fst (take k pre)))
     \<and> find_sub sentinel (stdout_buffer p1 @ concat (map fst (take k pre))) = None"
  proof (intro allI impI)
    fix k assume "0 < k \<and> k \<le> length pre"
    then show "decode (stdout_buffer p1 @ concat (map fst (take k pre)))
       = Inr (stdout_buffer p1 @ concat (map fst (take k pre)))
     \<and> find_sub sentinel (stdout_buffer p1 @ concat (map fst (take k pre))) = None"
      using Cons.prems [rule_format, of "Suc k"] by (simp add: c p1_def)
  qed
  have "poll p ((c # pre) @ rest) = poll p1 (pre @ rest)"
    using first by (simp add: c p1_def)
  also have "\<dots> = poll (p1\<lparr>stdout_buffer := stdout_buffer p1 @ concat (map fst pre),
             stderr_buffer := stderr_buffer p1 @ concat (map snd pre)\<rparr>) rest"
    by (rule Cons.IH [OF later])
  finally show ?case by (simp add: c p1_def)
qed

lemma poll_found:
  assumes "poll p sched = (Inr outp, p')"
  obtains k i where "0 < k" and "k \<le> length sched"
    and "find_sub sentinel (stdout_buffer p @ concat (map fst (take k sched))) = Some i"
    and "outp = take i (stdout_buffer p @ concat (map fst (take k sched)))"
    and "p' = p\<lparr>stdout_buffer := stdout_buffer p @ concat (map fst (take k sched)),
               stderr_buffer := stderr_buffer p @ concat (map snd (take k sched))\<rparr>"
  using assms
proof (induction sched arbitrary: p thesis)
  case Nil
  then show ?case by simp
next
  case (Cons c sched)
  obtain out err where c: "c = (out, err)" by (cases c)
  define p1 where "p1 = p\<lparr>stdout_buffer := stdout_buffer p @ out,
    stderr_buffer := stderr_buffer p @ err\<rparr>"
  from Cons.prems(2) have dec: "decode (stdout_buffer p @ out) = Inr (stdout_buffer p @ out)"
    using decode_cases [of "stdout_buffer p @ out"] by (auto simp: c)
  show ?case
  proof (cases "find_sub sentinel (stdout_buffer p @ out)")
    case (Some i)
    with Cons.prems(2) dec have "outp = take i (stdout_buffer p @ out)" "p' = p1"
      by (simp_all add: c p1_def)
    with Some show ?thesis
      by (intro Cons.prems(1) [of 1 i]) (simp_all add: c p1_def)
  next
    case None
    with Cons.prems(2) dec have run1: "poll p1 sched = (Inr outp, p')"
      by (simp add: c p1_def)
    show ?thesis
    proof (rule Cons.IH [OF _ run1])
      fix k i
      assume "0 < k" "k \<le> length sched"
        "find_sub sentinel (stdout_buffer p1 @ concat (map fst (take k sched))) = Some i"
        "outp = take i (stdout_buffer p1 @ concat (map fst (take k sched)))"
        "p' = p1\<lparr>stdout_buffer := stdout_buffer p1 @ concat (map fst (take k sched)),
               stderr_buffer := stderr_buffer p1 @ concat (map snd (take k sched))\<rparr>"
      then show ?thesis
        by (intro Cons.prems(1) [of "Suc k" i]) (simp_all add: c p1_def)
    qed
  qed
qed

lemma poll_timeout:
  assumes "\<forall>k. 0 < k \<and> k \<le> length sched \<longrightarrow>
     decode (stdout_buffer p @ concat (map fst (take k sched)))
       = Inr (stdout_buffer p @ concat (map fst (take k sched)))
     \<and> find_sub sentinel (stdout_buffer p @ concat (map fst (take k sched))) = None"
  shows "poll p sched =
     (Inl TimeoutError, p\<lparr>stdout_buffer := stdout_buffer p @ concat (map fst sched),
             stderr_buffer := stderr_buffer p @ concat (map snd sched)\<rparr>)"
  using poll_wait [OF assms, of "[]"] by simp

lemma poll_frame:
  "stdin (snd (poll p sched)) = stdin p \<and> signals (snd (poll p sched)) = signals p
   \<and> returncode (snd (poll p sched)) = returncode p"
proof (induction sched arbitrary: p)
  case Nil
  show ?case by simp
next
  case (Cons c sched)
  obtain out err where c: "c = (out, err)" by (cases c)
  show ?case
    using Cons.IH [of "p\<lparr>stdout_buffer := stdout_buffer p @ out,
      stderr_buffer := stderr_buffer p @ err\<rparr>"]
    by (simp add: c Let_def split: sum.splits option.splits)
qed

section \<open>Properties of \<^verbatim>\<open>_BashSession.run\<close> and \<^verbatim>\<open>BashTool.forward\<close>\<close>

lemma run_running:
  assumes "started s" "\<not> timed_out s" "process s = Some p" "returncode p = None"
  shows "run s command sched =
    (case poll (p\<lparr>stdin := stdin p @ command @ echo_sentinel\<rparr>) sched of
       (Inl TimeoutError, p') \<Rightarrow>
         (Inl timed_out_exn, s\<lparr>process := Some p', timed_out := True\<rparr>)
     | (Inl e, p') \<Rightarrow> (Inl e, s\<lparr>process := Some p'\<rparr>)
     | (Inr output, p') \<Rightarrow>
         (case decode (stderr_buffer p') of
            Inl e \<Rightarrow> (Inl e, s\<lparr>process := Some p'\<rparr>)
          | Inr error \<Rightarrow>
              (Inr [(''output'', strip_newline output), (''error'', strip_newline error)],
               s\<lparr>process := Some (p'\<lparr>stdout_buffer := [], stderr_buffer := []\<rparr>)\<rparr>)))"
  using assms by (simp add: run_def)

lemma run_success:
  assumes "run s command sched = (Inr [(''output'', out), (''error'', err)], s')"
  obtains p outp p' where "started s" and "\<not> timed_out s" and "process s = Some p"
    and "returncode p = None"
    and "poll (p\<lparr>stdin := stdin p @ command @ echo_sentinel\<rparr>) sched = (Inr outp, p')"
    and "decode (stderr_buffer p') = Inr (stderr_buffer p')"
    and "out = strip_newline outp" and "err = strip_newline (stderr_buffer p')"
    and "s' = s\<lparr>process := Some (p'\<lparr>stdout_buffer := [], stderr_buffer := []\<rparr>)\<rparr>"
proof -
  from assms have st: "started s"
    by (auto simp: run_def split: if_splits)
  from assms st obtain p where p: "process s = Some p"
    by (cases "process s") (auto simp: run_def)
  from assms st p have rc: "returncode p = None"
    by (cases "returncode p") (auto simp: run_def must_restart_def)
  from assms st p rc have nt: "\<not> timed_out s"
    by (auto simp: run_def split: if_splits)
  obtain r p' where pl: "poll (p\<lparr>stdin := stdin p @ command @ echo_sentinel\<rparr>) sched = (r, p')"
    by (cases "poll (p\<lparr>stdin := stdin p @ command @ echo_sentinel\<rparr>) sched")
  from assms have eq: "(case (r, p') of
       (Inl TimeoutError, p') \<Rightarrow>
         (Inl timed_out_exn, s\<lparr>process := Some p', timed_out := True\<rparr>)
     | (Inl e, p') \<Rightarrow> (Inl e, s\<lparr>process := Some p'\<rparr>)
     | (Inr output, p') \<Rightarrow>
         (case decode (stderr_buffer p') of
            Inl e \<Rightarrow> (Inl e, s\<lparr>process := Some p'\<rparr>)
          | Inr error \<Rightarrow>
              (Inr [(''output'', strip_newline output), (''error'', strip_newline error)],
               s\<lparr>process := Some (p'\<lparr>stdout_buffer := [], stderr_buffer := []\<rparr>)\<rparr>)))
     = (Inr [(''output'', out), (''error'', err)], s')"
    unfolding run_running [OF st nt p rc] pl .
  then obtain outp where r: "r = Inr outp"
    by (cases r) (auto split: exn.splits)
  from eq r have dec: "decode (stderr_buffer p') = Inr (stderr_buffer p')"
    using decode_cases [of "stderr_buffer p'"] by auto
  from eq r dec have "out = strip_newline outp" "err = strip_newline (stderr_buffer p')"
    "s' = s\<lparr>process := Some (p'\<lparr>stdout_buffer := [], stderr_buffer := []\<rparr>)\<rparr>"
    by simp_all
  with st nt p rc pl [unfolded r] dec show thesis by (rule that)
qed

lemma run_writes:
  assumes "started s" and "\<not> timed_out s" and "process s = Some p" and "returncode p = None"
  shows "map_option stdin (process (snd (run s command sched)))
      = Some (stdin p @ command @ echo_sentinel)
    \<and> map_option signals (process (snd (run s command sched))) = Some (signals p)"
proof -
  let ?p = "p\<lparr>stdin := stdin p @ command @ echo_sentinel\<rparr>"
  obtain r p' where pl: "poll ?p sched = (r, p')" by (cases "poll ?p sched")
  from poll_frame [of ?p sched] pl have "stdin p' = stdin p @ command @ echo_sentinel"
    "signals p' = signals p" by simp_all
  then show ?thesis
    by (simp add: run_running [OF assms] pl split: sum.splits exn.splits)
qed

lemma stop_started:
  assumes "started s" and "process s = Some p"
  shows "stop s = Inr (s\<lparr>process := Some (if returncode p = None then terminate p else p)\<rparr>)"
  using assms by (cases "returncode p") (simp_all add: stop_def)

lemma start_new_session:
  "start new_session = \<lparr>started = True, timed_out = False, process = Some spawned\<rparr>"
  by (simp add: start_def new_session_def)

lemma forward_run:
  assumes "session t = Some s" and "restart \<noteq> Some True" and "command \<noteq> []"
  shows "forward t command restart sched =
    (fst (run s command sched), t\<lparr>session := Some (snd (run s command sched))\<rparr>, None)"
  using assms by (simp add: forward_def split: prod.splits)

text \<open>
  The definitions a concrete call is evaluated with, and concrete calls of a script
  that prints \<^verbatim>\<open>a\<close> and leaves a background job that prints \<^verbatim>\<open>b\<close>: in the first
  \<^verbatim>\<open>b\<close> reaches the buffer behind the sentinel; in the second it reaches the buffer
  after the call, before the next call \<^verbatim>\<open>pwd\<close>.
\<close>

lemmas eval_defs = run_def start_def new_session_def spawned_def decode_def between_def
  sentinel_def echo_sentinel_def strip_newline_def timed_out_exn_def timeout_repr_def
  must_restart_def str_int_def not_started_def

lemma run_fresh_a_b:
  "run (start new_session) ''sh job.sh''
     [(''a\<newline><<exit>>\<newline>b\<newline>'', ''w\<newline>'')]
   = (Inr [(''output'', ''a''), (''error'', ''w'')],
      \<lparr>started = True, timed_out = False,
         process = Some \<lparr>returncode = None,
           stdin = ''sh job.sh; echo '' @ CHR 0x27 # ''<<exit>>''
             @ [CHR 0x27, CHR 0x0A],
           stdout_buffer = [], stderr_buffer = [], signals = []\<rparr>\<rparr>)"
  by (simp add: eval_defs)

lemma run_job:
  "run (start new_session) ''sh job.sh'' [(''a\<newline><<exit>>\<newline>'', [])]
   = (Inr [(''output'', ''a''), (''error'', [])],
      \<lparr>started = True, timed_out = False,
         process = Some \<lparr>returncode = None,
           stdin = ''sh job.sh; echo '' @ CHR 0x27 # ''<<exit>>''
             @ [CHR 0x27, CHR 0x0A],
           stdout_buffer = [], stderr_buffer = [], signals = []\<rparr>\<rparr>)"
  by (simp add: eval_defs)

lemma run_pwd_after_job:
  "run (arrive ''b\<newline>'' []
        \<lparr>started = True, timed_out = False,
           process = Some \<lparr>returncode = None,
             stdin = ''sh job.sh; echo '' @ CHR 0x27 # ''<<exit>>''
               @ [CHR 0x27, CHR 0x0A],
             stdout_buffer = [], stderr_buffer = [], signals = []\<rparr>\<rparr>)
     ''pwd'' [(''/root\<newline><<exit>>\<newline>'', []::string)]
   = (Inr [(''output'', ''b\<newline>/root''), (''error'', [])],
      \<lparr>started = True, timed_out = False,
         process = Some \<lparr>returncode = None,
           stdin = ''sh job.sh; echo '' @ CHR 0x27 # ''<<exit>>''
             @ [CHR 0x27, CHR 0x0A] @ ''pwd; echo '' @ CHR 0x27 # ''<<exit>>''
             @ [CHR 0x27, CHR 0x0A],
           stdout_buffer = [], stderr_buffer = [], signals = []\<rparr>\<rparr>)"
  by (simp add: eval_defs arrive_def)

section \<open>The claims\<close>

subsection \<open>C1: the result of a command is its captured output and error text\<close>

text \<open>
  Claim C1 says that every command whose captured standard output and standard error
  do not contain the sentinel returns, on a running session, the command's captured
  standard-output bytes up to the sentinel and its captured standard-error bytes, each
  without at most one trailing newline. As stated this fails in two ways.
  \<^item> \<^verbatim>\<open>run\<close> decodes both buffers as UTF-8, so a command that prints a byte that is not
    UTF-8 gets no result but a \<^verbatim>\<open>UnicodeDecodeError\<close>, which \<^verbatim>\<open>run\<close> does not catch: first
    below, the shell has printed the byte \<open>0xFF\<close> and then the sentinel.
  \<^item> \<^verbatim>\<open>run\<close> returns the whole buffers, so bytes that reached them before the call are
    part of the result: second below, \<^verbatim>\<open>late\<close> and \<^verbatim>\<open>old warning\<close> are in the buffers of a
    running session when \<^verbatim>\<open>echo next\<close> is run, and the result is
    \<^verbatim>\<open>{"output": "late\nnext", "error": "old warning"}\<close>.
\<close>

theorem run_undecodable_output_counterexample:
  "find_sub sentinel [CHR 0xFF] = None \<and> find_sub sentinel [] = None
   \<and> run (start new_session) ''head -c 1 blob'' [(CHR 0xFF # ''<<exit>>\<newline>'', []::string)]
     = (Inl UnicodeDecodeError,
        \<lparr>started = True, timed_out = False,
           process = Some \<lparr>returncode = None,
             stdin = ''head -c 1 blob; echo '' @ CHR 0x27 # ''<<exit>>'' @ [CHR 0x27, CHR 0x0A],
             stdout_buffer = CHR 0xFF # ''<<exit>>\<newline>'', stderr_buffer = [],
             signals = []\<rparr>\<rparr>)
   \<and> find_sub sentinel ''next\<newline>'' = None
   \<and> run (arrive ''late\<newline>'' ''old warning\<newline>'' (start new_session)) ''echo next''
       [(''next\<newline><<exit>>\<newline>'', []::string)]
     = (Inr [(''output'', ''late\<newline>next''), (''error'', ''old warning'')],
        \<lparr>started = True, timed_out = False,
           process = Some \<lparr>returncode = None,
             stdin = ''echo next; echo '' @ CHR 0x27 # ''<<exit>>'' @ [CHR 0x27, CHR 0x0A],
             stdout_buffer = [], stderr_buffer = [], signals = []\<rparr>\<rparr>)"
  by (simp add: eval_defs arrive_def)

text \<open>
  C1 as amended: on a running session (started, not timed out, shell alive) whose two
  buffers are empty when the call begins, if what the shell has printed on standard
  output is well-formed UTF-8 without the sentinel at every poll of \<open>pre\<close>, and at the
  next poll it has printed \<open>cmd_out @ sentinel @ rest\<close> on standard output and
  \<open>cmd_err\<close> on standard error, both well-formed UTF-8, where \<open>cmd_out\<close> does not
  contain the sentinel, then \<^verbatim>\<open>run\<close> returns \<^verbatim>\<open>{"output": ..., "error": ...}\<close> with the
  command's \<open>cmd_out\<close> and \<open>cmd_err\<close>, each without at most one trailing newline; the
  command followed by the echo of the sentinel has been written to the shell and both
  buffers are empty again.
\<close>

theorem run_returns_captured_text:
  assumes "started s" and "\<not> timed_out s" and "process s = Some p"
    and "returncode p = None"
    and "stdout_buffer p = []" and "stderr_buffer p = []"
    and "\<forall>k. 0 < k \<and> k \<le> length pre \<longrightarrow>
       decode (concat (map fst (take k pre))) = Inr (concat (map fst (take k pre)))
       \<and> find_sub sentinel (concat (map fst (take k pre))) = None"
    and "concat (map fst pre) @ out = cmd_out @ sentinel @ rest"
    and "concat (map snd pre) @ err = cmd_err"
    and "find_sub sentinel cmd_out = None"
    and "decode (cmd_out @ sentinel @ rest) = Inr (cmd_out @ sentinel @ rest)"
    and "decode cmd_err = Inr cmd_err"
  shows "run s command (pre @ (out, err) # post) =
      (Inr [(''output'', strip_newline cmd_out), (''error'', strip_newline cmd_err)],
       s\<lparr>process := Some (p\<lparr>stdin := stdin p @ command @ echo_sentinel,
              stdout_buffer := [], stderr_buffer := []\<rparr>)\<rparr>)"
proof -
  let ?p = "p\<lparr>stdin := stdin p @ command @ echo_sentinel\<rparr>"
  let ?q = "?p\<lparr>stdout_buffer := stdout_buffer ?p @ concat (map fst pre),
             stderr_buffer := stderr_buffer ?p @ concat (map snd pre)\<rparr>"
  have "poll ?p (pre @ (out, err) # post) = poll ?q ((out, err) # post)"
    by (rule poll_wait) (use assms(5,7) in simp)
  also have "\<dots> = (Inr cmd_out, ?q\<lparr>stdout_buffer := cmd_out @ sentinel @ rest,
      stderr_buffer := cmd_err\<rparr>)"
    using assms(5,6,8-11) find_sub_append_sentinel [of cmd_out rest] by simp
  finally show ?thesis
    using assms(12) by (simp add: run_running [OF assms(1-4)])
qed

text \<open>
  The theorem at \<^verbatim>\<open>echo hello\<close> on a fresh session, the output arriving over two
  polls and nothing on standard error: the result is \<^verbatim>\<open>{"output": "hello", "error": ""}\<close>.
\<close>

theorem run_returns_captured_text_witness:
  "run (start new_session) ''echo hello''
     [(''hel'', []), (''lo\<newline><<exit>>\<newline>'', [])]
   = (Inr [(''output'', ''hello''), (''error'', [])],
      \<lparr>started = True, timed_out = False,
         process = Some \<lparr>returncode = None,
           stdin = ''echo hello; echo '' @ CHR 0x27 # ''<<exit>>'' @ [CHR 0x27, CHR 0x0A],
           stdout_buffer = [], stderr_buffer = [], signals = []\<rparr>\<rparr>)"
proof -
  let ?pre = "[(''hel'', []::string)]"
  have waiting: "\<forall>k. 0 < k \<and> k \<le> length ?pre \<longrightarrow>
       decode (concat (map fst (take k ?pre))) = Inr (concat (map fst (take k ?pre)))
       \<and> find_sub sentinel (concat (map fst (take k ?pre))) = None"
  proof (intro allI impI)
    fix k :: nat
    assume "0 < k \<and> k \<le> length ?pre"
    then have "k = 1" by simp
    then show "decode (concat (map fst (take k ?pre))) = Inr (concat (map fst (take k ?pre)))
       \<and> find_sub sentinel (concat (map fst (take k ?pre))) = None"
      by (simp add: eval_defs)
  qed
  show ?thesis
    using run_returns_captured_text [of "start new_session" spawned ?pre
        "''lo\<newline><<exit>>\<newline>''" "''hello\<newline>''" "''\<newline>''" "[]" "[]"
        "''echo hello''" "[]", OF _ _ _ _ _ _ waiting]
    by (simp add: eval_defs)
qed

subsection \<open>C2: an empty command on an existing session\<close>

text \<open>
  Claim C2 says that \<^verbatim>\<open>forward\<close> with an empty command and no restart, when a session
  exists, is passed on to \<^verbatim>\<open>run\<close> as a poll. The code does not do that: \<^verbatim>\<open>if command:\<close>
  is false for the empty string, so \<^verbatim>\<open>forward\<close> raises \<^verbatim>\<open>Exception("no command provided.")\<close>
  whatever the session is, and leaves the session as it was: nothing is written and
  nothing is read from the buffers. The description of the tool and of its \<^verbatim>\<open>command\<close>
  input promise the poll.
\<close>

theorem forward_empty_with_session_raises:
  "forward \<lparr>session = Some s\<rparr> [] None sched
     = (Inl (Exception ''no command provided.''), \<lparr>session = Some s\<rparr>, None)
   \<and> forward \<lparr>session = Some s\<rparr> [] (Some False) sched
     = (Inl (Exception ''no command provided.''), \<lparr>session = Some s\<rparr>, None)"
  by (simp add: forward_def no_command_def)

subsection \<open>C3: a timeout is sticky\<close>

text \<open>
  Claim C3 says that every command that runs past the timeout without the sentinel
  being observed makes the call fail with a timeout error and set \<^verbatim>\<open>_timed_out\<close>, and
  that every later command on the session fails before anything is written. As stated,
  for every command, this fails: each poll decodes the standard-output buffer, so a
  command that prints a byte that is not UTF-8 and never ends makes \<^verbatim>\<open>run\<close> raise
  \<^verbatim>\<open>UnicodeDecodeError\<close> at the first poll. No sentinel has been observed, the flag is not
  set, and the next command is written to the shell: below, its standard input holds
  both commands.
\<close>

theorem run_undecodable_wait_counterexample:
  "run (start new_session) ''cat blob; sleep 1000'' [([CHR 0xFF], []), ([], [])]
     = (Inl UnicodeDecodeError,
        \<lparr>started = True, timed_out = False,
           process = Some \<lparr>returncode = None,
             stdin = ''cat blob; sleep 1000; echo '' @ CHR 0x27 # ''<<exit>>''
               @ [CHR 0x27, CHR 0x0A],
             stdout_buffer = [CHR 0xFF], stderr_buffer = [], signals = []\<rparr>\<rparr>)
   \<and> run \<lparr>started = True, timed_out = False,
           process = Some \<lparr>returncode = None,
             stdin = ''cat blob; sleep 1000; echo '' @ CHR 0x27 # ''<<exit>>''
               @ [CHR 0x27, CHR 0x0A],
             stdout_buffer = [CHR 0xFF], stderr_buffer = [], signals = []\<rparr>\<rparr>
       ''ls'' [([], [])]
     = (Inl UnicodeDecodeError,
        \<lparr>started = True, timed_out = False,
           process = Some \<lparr>returncode = None,
             stdin = ''cat blob; sleep 1000; echo '' @ CHR 0x27 # ''<<exit>>''
               @ [CHR 0x27, CHR 0x0A] @ ''ls; echo '' @ CHR 0x27 # ''<<exit>>''
               @ [CHR 0x27, CHR 0x0A],
             stdout_buffer = [CHR 0xFF], stderr_buffer = [], signals = []\<rparr>\<rparr>)"
  by (simp add: eval_defs)

text \<open>
  C3 as amended: when the wait for the sentinel lasts until the timeout, that is, when
  every poll before the timeout finds the standard-output buffer well-formed UTF-8 and
  without the sentinel, the call raises the timeout exception and sets \<^verbatim>\<open>_timed_out\<close>;
  every later \<^verbatim>\<open>run\<close> on that session, whatever the shell has become in the meantime
  (\<open>p2\<close>), fails at once and leaves the session as it is, so nothing is written to the
  shell and the flag stays set. It raises the same timeout exception, or, when the
  shell has exited in the meantime, returns the must-restart error of C4, whose check
  comes first in \<^verbatim>\<open>run\<close>.
\<close>

theorem run_timeout_is_sticky:
  assumes "started s" and "\<not> timed_out s" and "process s = Some p"
    and "returncode p = None"
    and "\<forall>k. 0 < k \<and> k \<le> length sched \<longrightarrow>
       decode (stdout_buffer p @ concat (map fst (take k sched)))
         = Inr (stdout_buffer p @ concat (map fst (take k sched)))
       \<and> find_sub sentinel (stdout_buffer p @ concat (map fst (take k sched))) = None"
  shows "run s command sched =
      (Inl timed_out_exn,
       s\<lparr>process := Some (p\<lparr>stdin := stdin p @ command @ echo_sentinel,
              stdout_buffer := stdout_buffer p @ concat (map fst sched),
              stderr_buffer := stderr_buffer p @ concat (map snd sched)\<rparr>),
         timed_out := True\<rparr>)
    \<and> timed_out (snd (run s command sched))
    \<and> (\<forall>p2 c2 sched2.
         run ((snd (run s command sched))\<lparr>process := Some p2\<rparr>) c2 sched2 =
           (case returncode p2 of
              None \<Rightarrow> Inl timed_out_exn
            | Some rc \<Rightarrow> Inr (must_restart rc),
            (snd (run s command sched))\<lparr>process := Some p2\<rparr>))"
proof -
  let ?p = "p\<lparr>stdin := stdin p @ command @ echo_sentinel\<rparr>"
  have "poll ?p sched =
     (Inl TimeoutError, ?p\<lparr>stdout_buffer := stdout_buffer ?p @ concat (map fst sched),
             stderr_buffer := stderr_buffer ?p @ concat (map snd sched)\<rparr>)"
    by (rule poll_timeout) (use assms(5) in simp)
  then have first: "run s command sched =
      (Inl timed_out_exn,
       s\<lparr>process := Some (p\<lparr>stdin := stdin p @ command @ echo_sentinel,
              stdout_buffer := stdout_buffer p @ concat (map fst sched),
              stderr_buffer := stderr_buffer p @ concat (map snd sched)\<rparr>),
         timed_out := True\<rparr>)"
    by (simp add: run_running [OF assms(1-4)])
  have later: "run (s'\<lparr>process := Some p2\<rparr>) c2 sched2 =
           (case returncode p2 of
              None \<Rightarrow> Inl timed_out_exn
            | Some rc \<Rightarrow> Inr (must_restart rc),
            s'\<lparr>process := Some p2\<rparr>)"
    if "started s'" "timed_out s'" for s' p2 c2 sched2
    using that by (simp add: run_def split: option.splits)
  show ?thesis
    using assms(1) by (simp add: first later)
qed

text \<open>
  The theorem at \<^verbatim>\<open>sleep 1000\<close> on a fresh session, with two polls before the timeout.
\<close>

theorem run_timeout_is_sticky_witness:
  "run (start new_session) ''sleep 1000'' [(''wait'', []), (''ing'', ''?'')] =
      (Inl (Exception
         ''timed out: bash has not returned in 120.0 seconds and must be restarted''),
       \<lparr>started = True, timed_out = True,
          process = Some \<lparr>returncode = None,
            stdin = ''sleep 1000; echo '' @ CHR 0x27 # ''<<exit>>'' @ [CHR 0x27, CHR 0x0A],
            stdout_buffer = ''waiting'', stderr_buffer = ''?'', signals = []\<rparr>\<rparr>)
   \<and> timed_out (snd (run (start new_session) ''sleep 1000'' [(''wait'', []), (''ing'', ''?'')]))
   \<and> (\<forall>p2 c2 sched2.
         run ((snd (run (start new_session) ''sleep 1000'' [(''wait'', []), (''ing'', ''?'')]))
                \<lparr>process := Some p2\<rparr>) c2 sched2 =
           (case returncode p2 of
              None \<Rightarrow> Inl timed_out_exn
            | Some rc \<Rightarrow> Inr (must_restart rc),
            (snd (run (start new_session) ''sleep 1000'' [(''wait'', []), (''ing'', ''?'')]))
                \<lparr>process := Some p2\<rparr>))"
proof -
  let ?sched = "[(''wait'', []), (''ing'', ''?'')]"
  have waiting: "\<forall>k. 0 < k \<and> k \<le> length ?sched \<longrightarrow>
       decode (stdout_buffer spawned @ concat (map fst (take k ?sched)))
         = Inr (stdout_buffer spawned @ concat (map fst (take k ?sched)))
       \<and> find_sub sentinel (stdout_buffer spawned @ concat (map fst (take k ?sched))) = None"
  proof (intro allI impI)
    fix k :: nat
    assume "0 < k \<and> k \<le> length ?sched"
    then have "k = 1 \<or> k = 2" by auto
    then show "decode (stdout_buffer spawned @ concat (map fst (take k ?sched)))
         = Inr (stdout_buffer spawned @ concat (map fst (take k ?sched)))
       \<and> find_sub sentinel (stdout_buffer spawned @ concat (map fst (take k ?sched))) = None"
      by (elim disjE) (simp_all add: eval_defs)
  qed
  have running: "started (start new_session)" "\<not> timed_out (start new_session)"
    "process (start new_session) = Some spawned" "returncode spawned = None"
    by (simp_all add: eval_defs)
  note th = run_timeout_is_sticky [OF running waiting, of "''sleep 1000''"]
  show ?thesis
    using th [THEN conjunct2, THEN conjunct2]
    unfolding th [THEN conjunct1]
    by (simp add: start_def new_session_def spawned_def echo_sentinel_def sentinel_def
        timed_out_exn_def timeout_repr_def)
qed

subsection \<open>C4: a shell that has exited\<close>

text \<open>
  Claim C4: on a started session whose shell has exited (\<^verbatim>\<open>returncode\<close> is set),
  \<^verbatim>\<open>run\<close> returns the dictionary
  \<^verbatim>\<open>{"system": "tool must be restarted", "error": "bash has exited with returncode ..."}\<close>,
  raises nothing, and leaves the session as it is: nothing is written to the shell.
\<close>

theorem run_exited_must_restart:
  assumes "started s" and "process s = Some p" and "returncode p = Some rc"
  shows "run s command sched = (Inr (must_restart rc), s)"
  using assms by (simp add: run_def)

text \<open>
  The theorem at a session whose shell has exited with return code 1.
\<close>

theorem run_exited_must_restart_witness:
  "run \<lparr>started = True, timed_out = False,
        process = Some \<lparr>returncode = Some 1, stdin = [], stdout_buffer = [],
          stderr_buffer = [], signals = []\<rparr>\<rparr> ''ls'' [(''<<exit>>'', [])]
   = (Inr [(''system'', ''tool must be restarted''),
           (''error'', ''bash has exited with returncode 1'')],
      \<lparr>started = True, timed_out = False,
        process = Some \<lparr>returncode = Some 1, stdin = [], stdout_buffer = [],
          stderr_buffer = [], signals = []\<rparr>\<rparr>)"
  using run_exited_must_restart [of "\<lparr>started = True, timed_out = False,
        process = Some \<lparr>returncode = Some 1, stdin = [], stdout_buffer = [],
          stderr_buffer = [], signals = []\<rparr>\<rparr>" "\<lparr>returncode = Some 1, stdin = [], stdout_buffer = [],
          stderr_buffer = [], signals = []\<rparr>" 1 "''ls''" "[(''<<exit>>'', [])]"]
  by (simp add: must_restart_def str_int_def)

subsection \<open>C5: restart\<close>

text \<open>
  Claim C5: \<^verbatim>\<open>forward\<close> with \<^verbatim>\<open>restart=True\<close>, whether there is no session or a started
  one (running, timed out or exited), returns \<^verbatim>\<open>{"system": "tool has been restarted"}\<close>
  and leaves the tool with a new session that is started, not timed out, with a fresh
  live shell to which nothing has been written. The session it replaces is stopped
  without an exception and is left as it was but for one signal: its shell has got
  SIGTERM when it was still alive, and nothing when it had exited. Nothing has been
  written to the old shell either, so the command is executed by neither shell. (The
  tool starts every session it creates, so the session it holds is a started one.)
\<close>

theorem forward_restart:
  assumes "case session t of None \<Rightarrow> True | Some s \<Rightarrow> started s \<and> process s \<noteq> None"
  shows "forward t command (Some True) sched =
      (Inr [(''system'', ''tool has been restarted'')],
       t\<lparr>session := Some \<lparr>started = True, timed_out = False,
          process = Some \<lparr>returncode = None, stdin = [], stdout_buffer = [],
            stderr_buffer = [], signals = []\<rparr>\<rparr>\<rparr>,
       (case session t of
          None \<Rightarrow> None
        | Some s \<Rightarrow>
            Some (s\<lparr>process := map_option
              (\<lambda>p. if returncode p = None then p\<lparr>signals := signals p @ [SIGTERM]\<rparr> else p)
              (process s)\<rparr>)))"
proof (cases "session t")
  case None
  then show ?thesis
    by (simp add: forward_def start_new_session restarted_def spawned_def)
next
  case (Some s)
  with assms obtain p where sp: "started s" "process s = Some p" by auto
  from stop_started [OF sp] Some sp(2) show ?thesis
    by (simp add: forward_def start_new_session restarted_def spawned_def terminate_def)
qed

text \<open>
  The theorem at a timed-out session that still runs \<^verbatim>\<open>sleep 1000\<close>: the old shell has
  got SIGTERM, its standard input still holds \<^verbatim>\<open>sleep 1000\<close> only, and the new shell has
  been given nothing.
\<close>

theorem forward_restart_witness:
  "forward \<lparr>session = Some \<lparr>started = True, timed_out = True,
        process = Some \<lparr>returncode = None, stdin = ''sleep 1000'', stdout_buffer = ''x'',
          stderr_buffer = [], signals = []\<rparr>\<rparr>\<rparr> ''rm -rf tmp'' (Some True) [(''<<exit>>'', [])]
    = (Inr [(''system'', ''tool has been restarted'')],
       \<lparr>session = Some \<lparr>started = True, timed_out = False,
          process = Some \<lparr>returncode = None, stdin = [], stdout_buffer = [],
            stderr_buffer = [], signals = []\<rparr>\<rparr>\<rparr>,
       Some \<lparr>started = True, timed_out = True,
        process = Some \<lparr>returncode = None, stdin = ''sleep 1000'', stdout_buffer = ''x'',
          stderr_buffer = [], signals = [SIGTERM]\<rparr>\<rparr>)"
proof -
  let ?p = "\<lparr>returncode = None, stdin = ''sleep 1000'', stdout_buffer = ''x'',
          stderr_buffer = [], signals = []\<rparr>"
  let ?s = "\<lparr>started = True, timed_out = True, process = Some ?p\<rparr>"
  let ?t = "\<lparr>session = Some ?s\<rparr>"
  have pre: "case session ?t of None \<Rightarrow> True | Some s \<Rightarrow> started s \<and> process s \<noteq> None"
    by simp
  show ?thesis
    using forward_restart [OF pre, of "''rm -rf tmp''" "[(''<<exit>>'', [])]"]
    by simp
qed

subsection \<open>C6: how failures reach the caller\<close>

text \<open>
  Claim C6 says that a timeout, an exited shell and an empty command without a session
  are all turned into a result value, and never propagate as an exception. The code
  does that for the exited shell only. The two other conditions are explicit
  \<^verbatim>\<open>raise Exception(...)\<close> statements, and \<^verbatim>\<open>forward\<close> catches nothing.
\<close>

theorem forward_raises_counterexample:
  "forward \<lparr>session = None\<rparr> [] None [] =
      (Inl (Exception ''no command provided.''),
       \<lparr>session = Some \<lparr>started = True, timed_out = False,
          process = Some \<lparr>returncode = None, stdin = [], stdout_buffer = [],
            stderr_buffer = [], signals = []\<rparr>\<rparr>\<rparr>,
       None)
   \<and> fst (forward \<lparr>session = None\<rparr> ''sleep 1000'' None [(''zz'', [])]) =
      Inl (Exception
        ''timed out: bash has not returned in 120.0 seconds and must be restarted'')"
  by (simp add: forward_def eval_defs no_command_def)

text \<open>
  C6 as amended: through \<^verbatim>\<open>forward\<close> without restart, an exited shell is returned as
  the must-restart dictionary; a wait that lasts until the timeout is raised as the
  exception "timed out: bash has not returned in 120.0 seconds and must be restarted";
  an empty command without a session is raised as the exception "no command provided.".
\<close>

theorem failures_returned_or_raised:
  "(session t = Some s \<and> restart \<noteq> Some True \<and> command \<noteq> [] \<and> started s
      \<and> process s = Some p \<and> returncode p = Some rc \<longrightarrow>
      fst (forward t command restart sched) = Inr (must_restart rc))
   \<and> (session t = Some s \<and> restart \<noteq> Some True \<and> command \<noteq> [] \<and> started s
      \<and> \<not> timed_out s \<and> process s = Some p \<and> returncode p = None
      \<and> (\<forall>k. 0 < k \<and> k \<le> length sched \<longrightarrow>
           decode (stdout_buffer p @ concat (map fst (take k sched)))
             = Inr (stdout_buffer p @ concat (map fst (take k sched)))
           \<and> find_sub sentinel (stdout_buffer p @ concat (map fst (take k sched))) = None)
      \<longrightarrow> fst (forward t command restart sched) = Inl timed_out_exn)
   \<and> (session t = None \<and> restart \<noteq> Some True \<longrightarrow>
      fst (forward t [] restart sched) = Inl no_command)"
proof (intro conjI impI)
  assume "session t = Some s \<and> restart \<noteq> Some True \<and> command \<noteq> [] \<and> started s
      \<and> process s = Some p \<and> returncode p = Some rc"
  then show "fst (forward t command restart sched) = Inr (must_restart rc)"
    by (simp add: forward_run run_def)
next
  assume a: "session t = Some s \<and> restart \<noteq> Some True \<and> command \<noteq> [] \<and> started s
      \<and> \<not> timed_out s \<and> process s = Some p \<and> returncode p = None
      \<and> (\<forall>k. 0 < k \<and> k \<le> length sched \<longrightarrow>
           decode (stdout_buffer p @ concat (map fst (take k sched)))
             = Inr (stdout_buffer p @ concat (map fst (take k sched)))
           \<and> find_sub sentinel (stdout_buffer p @ concat (map fst (take k sched))) = None)"
  let ?p = "p\<lparr>stdin := stdin p @ command @ echo_sentinel\<rparr>"
  have "poll ?p sched =
     (Inl TimeoutError, ?p\<lparr>stdout_buffer := stdout_buffer ?p @ concat (map fst sched),
             stderr_buffer := stderr_buffer ?p @ concat (map snd sched)\<rparr>)"
    by (rule poll_timeout) (use a in simp)
  with a have "fst (run s command sched) = Inl timed_out_exn"
    by (simp add: run_running)
  with a show "fst (forward t command restart sched) = Inl timed_out_exn"
    by (simp add: forward_run)
next
  assume "session t = None \<and> restart \<noteq> Some True"
  then show "fst (forward t [] restart sched) = Inl no_command"
    by (simp add: forward_def)
qed

text \<open>
  The theorem at one call for each of the three conditions.
\<close>

theorem failures_returned_or_raised_witness:
  "fst (forward \<lparr>session = Some \<lparr>started = True, timed_out = False,
        process = Some \<lparr>returncode = Some 0, stdin = ''exit'', stdout_buffer = [],
          stderr_buffer = [], signals = []\<rparr>\<rparr>\<rparr> ''ls'' None [])
     = Inr [(''system'', ''tool must be restarted''),
            (''error'', ''bash has exited with returncode 0'')]
   \<and> fst (forward \<lparr>session = Some (start new_session)\<rparr> ''sleep 1000'' None [(''zz'', [])])
     = Inl (Exception
        ''timed out: bash has not returned in 120.0 seconds and must be restarted'')
   \<and> fst (forward \<lparr>session = None\<rparr> [] None []) = Inl (Exception ''no command provided.'')"
proof -
  let ?p = "\<lparr>returncode = Some 0, stdin = ''exit'', stdout_buffer = [],
          stderr_buffer = [], signals = []\<rparr>"
  let ?s = "\<lparr>started = True, timed_out = False, process = Some ?p\<rparr>"
  have waiting: "\<forall>k. 0 < k \<and> k \<le> length [(''zz'', [])] \<longrightarrow>
       decode (stdout_buffer spawned @ concat (map fst (take k [(''zz'', [])])))
         = Inr (stdout_buffer spawned @ concat (map fst (take k [(''zz'', [])])))
       \<and> find_sub sentinel (stdout_buffer spawned @ concat (map fst (take k [(''zz'', [])])))
         = None"
  proof (intro allI impI)
    fix k :: nat
    assume "0 < k \<and> k \<le> length [(''zz'', [])]"
    then have "k = 1" by simp
    then show "decode (stdout_buffer spawned @ concat (map fst (take k [(''zz'', [])])))
         = Inr (stdout_buffer spawned @ concat (map fst (take k [(''zz'', [])])))
       \<and> find_sub sentinel (stdout_buffer spawned @ concat (map fst (take k [(''zz'', [])])))
         = None"
      by (simp add: eval_defs)
  qed
  have a: "fst (forward \<lparr>session = Some ?s\<rparr> ''ls'' None []) = Inr (must_restart 0)"
    using failures_returned_or_raised [of "\<lparr>session = Some ?s\<rparr>" ?s None "''ls''" ?p 0 "[]",
        THEN conjunct1]
    by simp
  have b: "fst (forward \<lparr>session = Some (start new_session)\<rparr> ''sleep 1000'' None
      [(''zz'', [])]) = Inl timed_out_exn"
    using failures_returned_or_raised [of "\<lparr>session = Some (start new_session)\<rparr>"
        "start new_session" None "''sleep 1000''" spawned _ "[(''zz'', [])]",
        THEN conjunct2, THEN conjunct1] waiting
    by (simp add: start_new_session spawned_def)
  have c: "fst (forward \<lparr>session = None\<rparr> [] None []) = Inl no_command"
    using failures_returned_or_raised [of "\<lparr>session = None\<rparr>" _ None _ _ _ "[]",
        THEN conjunct2, THEN conjunct2]
    by simp
  from a b c show ?thesis
    by (simp add: must_restart_def str_int_def timed_out_exn_def timeout_repr_def no_command_def)
qed

subsection \<open>C7: the interrupt token\<close>

text \<open>
  Claim C7 says that the command \<^verbatim>\<open>ctrl+c\<close> makes the engine signal the process group of
  the shell instead of writing the text to its standard input. The code has no such
  case: \<^verbatim>\<open>run\<close> writes \<^verbatim>\<open>ctrl+c; echo '<<exit>>'\<close> and a newline to the shell like any
  other command and sends no signal, whatever the shell answers. The description of the
  \<^verbatim>\<open>command\<close> input promises the interrupt.
\<close>

theorem run_ctrl_c_is_typed:
  "map_option stdin (process (snd (run (start new_session) ''ctrl+c'' sched)))
      = Some (''ctrl+c; echo '' @ CHR 0x27 # ''<<exit>>'' @ [CHR 0x27, CHR 0x0A])
   \<and> map_option signals (process (snd (run (start new_session) ''ctrl+c'' sched))) = Some []"
  using run_writes [of "start new_session" spawned "''ctrl+c''" sched]
  by (simp add: start_new_session spawned_def echo_sentinel_def sentinel_def)

subsection \<open>C8: the buffers are empty after a successful command\<close>

text \<open>
  Claim C8 says that after every successful command both buffers are empty, so that no
  byte produced before or during one command ever appears in the result of a later
  one. The buffers are empty when \<^verbatim>\<open>run\<close> returns, but the second part fails: what a
  command prints after its result was taken, such as the output of a background job it
  has left, reaches the buffer later and is returned with the next command. Below the
  job of \<^verbatim>\<open>sh job.sh\<close> prints \<^verbatim>\<open>b\<close> after the call has returned, and the result of the
  next call \<^verbatim>\<open>pwd\<close> is \<^verbatim>\<open>{"output": "b\n/root", "error": ""}\<close>.
\<close>

theorem run_late_output_counterexample:
  "run (start new_session) ''sh job.sh'' [(''a\<newline><<exit>>\<newline>'', [])]
   = (Inr [(''output'', ''a''), (''error'', [])],
      \<lparr>started = True, timed_out = False,
         process = Some \<lparr>returncode = None,
           stdin = ''sh job.sh; echo '' @ CHR 0x27 # ''<<exit>>''
             @ [CHR 0x27, CHR 0x0A],
           stdout_buffer = [], stderr_buffer = [], signals = []\<rparr>\<rparr>)
   \<and> run (arrive ''b\<newline>'' []
        \<lparr>started = True, timed_out = False,
           process = Some \<lparr>returncode = None,
             stdin = ''sh job.sh; echo '' @ CHR 0x27 # ''<<exit>>''
               @ [CHR 0x27, CHR 0x0A],
             stdout_buffer = [], stderr_buffer = [], signals = []\<rparr>\<rparr>)
     ''pwd'' [(''/root\<newline><<exit>>\<newline>'', []::string)]
   = (Inr [(''output'', ''b\<newline>/root''), (''error'', [])],
      \<lparr>started = True, timed_out = False,
         process = Some \<lparr>returncode = None,
           stdin = ''sh job.sh; echo '' @ CHR 0x27 # ''<<exit>>''
             @ [CHR 0x27, CHR 0x0A] @ ''pwd; echo '' @ CHR 0x27 # ''<<exit>>''
             @ [CHR 0x27, CHR 0x0A],
           stdout_buffer = [], stderr_buffer = [], signals = []\<rparr>\<rparr>)"
  by (simp add: eval_defs arrive_def)

text \<open>
  C8 as amended: after \<^verbatim>\<open>run\<close> has returned \<^verbatim>\<open>{"output": ..., "error": ...}\<close>, both
  buffers of the session are empty, so no byte that was in the buffers when the result
  was taken appears in a later result: whatever reaches the buffers between the two
  calls (\<open>late_out\<close>, \<open>late_err\<close>), the result of a later successful \<^verbatim>\<open>run\<close> is made of
  those bytes and of the bytes received during the later call, and of nothing else. Its
  output is what stands before the first sentinel in them, its error all of them on
  standard error, each without at most one trailing newline.
\<close>

theorem run_success_clears_buffers:
  assumes "run s command sched = (Inr [(''output'', out), (''error'', err)], s')"
  shows "(\<exists>p'. process s' = Some p' \<and> stdout_buffer p' = [] \<and> stderr_buffer p' = [])
    \<and> (\<forall>late_out late_err c2 sched2 out2 err2 s2.
         run (arrive late_out late_err s') c2 sched2
           = (Inr [(''output'', out2), (''error'', err2)], s2) \<longrightarrow>
         (\<exists>k i. 0 < k \<and> k \<le> length sched2
            \<and> find_sub sentinel (late_out @ concat (map fst (take k sched2))) = Some i
            \<and> out2 = strip_newline (take i (late_out @ concat (map fst (take k sched2))))
            \<and> err2 = strip_newline (late_err @ concat (map snd (take k sched2)))))"
proof -
  from assms obtain p' where
    s': "s' = s\<lparr>process := Some (p'\<lparr>stdout_buffer := [], stderr_buffer := []\<rparr>)\<rparr>"
    by (rule run_success)
  have empty: "\<exists>p'. process s' = Some p' \<and> stdout_buffer p' = [] \<and> stderr_buffer p' = []"
    by (simp add: s')
  have later: "\<exists>k i. 0 < k \<and> k \<le> length sched2
            \<and> find_sub sentinel (late_out @ concat (map fst (take k sched2))) = Some i
            \<and> out2 = strip_newline (take i (late_out @ concat (map fst (take k sched2))))
            \<and> err2 = strip_newline (late_err @ concat (map snd (take k sched2)))"
    if run2: "run (arrive late_out late_err s') c2 sched2
      = (Inr [(''output'', out2), (''error'', err2)], s2)"
    for late_out late_err c2 sched2 out2 err2 s2
  proof -
    from run2 obtain p outp p2 where
      r: "process (arrive late_out late_err s') = Some p"
      "poll (p\<lparr>stdin := stdin p @ c2 @ echo_sentinel\<rparr>) sched2 = (Inr outp, p2)"
      "out2 = strip_newline outp" "err2 = strip_newline (stderr_buffer p2)"
      by (rule run_success)
    from r(1) have p: "stdout_buffer p = late_out" "stderr_buffer p = late_err"
      by (auto simp: s' arrive_def)
    from r(2) obtain k i where k: "0 < k" "k \<le> length sched2"
      "find_sub sentinel
         (stdout_buffer (p\<lparr>stdin := stdin p @ c2 @ echo_sentinel\<rparr>)
            @ concat (map fst (take k sched2))) = Some i"
      "outp = take i (stdout_buffer (p\<lparr>stdin := stdin p @ c2 @ echo_sentinel\<rparr>)
            @ concat (map fst (take k sched2)))"
      "p2 = (p\<lparr>stdin := stdin p @ c2 @ echo_sentinel\<rparr>)
         \<lparr>stdout_buffer := stdout_buffer (p\<lparr>stdin := stdin p @ c2 @ echo_sentinel\<rparr>)
              @ concat (map fst (take k sched2)),
          stderr_buffer := stderr_buffer (p\<lparr>stdin := stdin p @ c2 @ echo_sentinel\<rparr>)
              @ concat (map snd (take k sched2))\<rparr>"
      by (rule poll_found)
    define b where "b = late_out @ concat (map fst (take k sched2))"
    from k(3) p have f: "find_sub sentinel b = Some i"
      by (simp add: b_def)
    from k(4) p r(3) have o: "out2 = strip_newline (take i b)"
      by (simp add: b_def)
    from k(5) p r(4) have e: "err2 = strip_newline (late_err @ concat (map snd (take k sched2)))"
      by simp
    from k(1,2) f o e show ?thesis unfolding b_def by blast
  qed
  from empty later show ?thesis by blast
qed

text \<open>
  The theorem at the two calls above: after \<^verbatim>\<open>sh job.sh\<close> the buffers are empty, and the
  result of \<^verbatim>\<open>pwd\<close> is made of the \<^verbatim>\<open>b\<close> that arrived between the calls and of what
  \<^verbatim>\<open>pwd\<close> printed; the \<^verbatim>\<open>a\<close> of the first call is not in it.
\<close>

theorem run_success_clears_buffers_witness:
  "run (start new_session) ''sh job.sh'' [(''a\<newline><<exit>>\<newline>'', [])]
   = (Inr [(''output'', ''a''), (''error'', [])],
      \<lparr>started = True, timed_out = False,
         process = Some \<lparr>returncode = None,
           stdin = ''sh job.sh; echo '' @ CHR 0x27 # ''<<exit>>''
             @ [CHR 0x27, CHR 0x0A],
           stdout_buffer = [], stderr_buffer = [], signals = []\<rparr>\<rparr>)
   \<and> (\<exists>p'. process \<lparr>started = True, timed_out = False,
         process = Some \<lparr>returncode = None,
           stdin = ''sh job.sh; echo '' @ CHR 0x27 # ''<<exit>>''
             @ [CHR 0x27, CHR 0x0A],
           stdout_buffer = [], stderr_buffer = [], signals = []\<rparr>\<rparr> = Some p'
      \<and> stdout_buffer p' = [] \<and> stderr_buffer p' = [])
   \<and> (\<exists>k i. 0 < k \<and> k \<le> length [(''/root\<newline><<exit>>\<newline>'', []::string)]
      \<and> find_sub sentinel (''b\<newline>''
          @ concat (map fst (take k [(''/root\<newline><<exit>>\<newline>'', []::string)]))) = Some i
      \<and> ''b\<newline>/root'' = strip_newline (take i (''b\<newline>''
          @ concat (map fst (take k [(''/root\<newline><<exit>>\<newline>'', []::string)]))))
      \<and> [] = strip_newline ([]
          @ concat (map snd (take k [(''/root\<newline><<exit>>\<newline>'', []::string)]))))"
proof -
  note th = run_success_clears_buffers [OF run_job]
  from th [THEN conjunct2, rule_format, OF run_pwd_after_job]
  have later: "\<exists>k i. 0 < k \<and> k \<le> length [(''/root\<newline><<exit>>\<newline>'', []::string)]
      \<and> find_sub sentinel (''b\<newline>''
          @ concat (map fst (take k [(''/root\<newline><<exit>>\<newline>'', []::string)]))) = Some i
      \<and> ''b\<newline>/root'' = strip_newline (take i (''b\<newline>''
          @ concat (map fst (take k [(''/root\<newline><<exit>>\<newline>'', []::string)]))))
      \<and> [] = strip_newline ([]
          @ concat (map snd (take k [(''/root\<newline><<exit>>\<newline>'', []::string)])))" .
  from run_job th [THEN conjunct1] later show ?thesis by (intro conjI)
qed

subsection \<open>C9: what follows the sentinel\<close>

text \<open>
  Claim C9 says that only the sentinel is trimmed and that the bytes after it in the
  output buffer remain available. The code keeps \<^verbatim>\<open>output[:output.index(sentinel)]\<close> and
  then clears both buffers: what follows the sentinel is in neither the result nor the
  buffer. Below the shell has printed \<^verbatim>\<open>a\<close>, the sentinel, and then \<^verbatim>\<open>b\<close> from a
  background job; \<^verbatim>\<open>b\<close> is lost.
\<close>

theorem run_discards_after_sentinel_counterexample:
  "run (start new_session) ''sh job.sh''
     [(''a\<newline><<exit>>\<newline>b\<newline>'', ''w\<newline>'')]
   = (Inr [(''output'', ''a''), (''error'', ''w'')],
      \<lparr>started = True, timed_out = False,
         process = Some \<lparr>returncode = None,
           stdin = ''sh job.sh; echo '' @ CHR 0x27 # ''<<exit>>''
             @ [CHR 0x27, CHR 0x0A],
           stdout_buffer = [], stderr_buffer = [], signals = []\<rparr>\<rparr>)"
  by (rule run_fresh_a_b)

text \<open>
  C9 as amended: when \<^verbatim>\<open>run\<close> returns \<^verbatim>\<open>{"output": ..., "error": ...}\<close>, the
  standard-output buffer at the poll that ended the wait is \<open>before @ sentinel @ after\<close>
  with the sentinel first occurring right after \<open>before\<close>; the output is \<open>before\<close>
  without at most one trailing newline, the error is the whole standard-error buffer
  without at most one trailing newline, and both buffers are empty afterwards: the
  sentinel and \<open>after\<close> are discarded.
\<close>

theorem run_discards_from_sentinel:
  assumes "run s command sched = (Inr [(''output'', out), (''error'', err)], s')"
  shows "\<exists>p p' k before after.
      process s = Some p \<and> process s' = Some p' \<and> 0 < k \<and> k \<le> length sched
      \<and> stdout_buffer p @ concat (map fst (take k sched)) = before @ sentinel @ after
      \<and> find_sub sentinel (before @ sentinel @ after) = Some (length before)
      \<and> out = strip_newline before
      \<and> err = strip_newline (stderr_buffer p @ concat (map snd (take k sched)))
      \<and> stdout_buffer p' = [] \<and> stderr_buffer p' = []"
proof -
  from assms obtain p outp p1 where
    r: "process s = Some p"
    "poll (p\<lparr>stdin := stdin p @ command @ echo_sentinel\<rparr>) sched = (Inr outp, p1)"
    "out = strip_newline outp" "err = strip_newline (stderr_buffer p1)"
    "s' = s\<lparr>process := Some (p1\<lparr>stdout_buffer := [], stderr_buffer := []\<rparr>)\<rparr>"
    by (rule run_success)
  let ?p = "p\<lparr>stdin := stdin p @ command @ echo_sentinel\<rparr>"
  let ?b = "\<lambda>k. stdout_buffer p @ concat (map fst (take k sched))"
  from r(2) obtain k i where k0: "0 < k" "k \<le> length sched"
    "find_sub sentinel (stdout_buffer ?p @ concat (map fst (take k sched))) = Some i"
    "outp = take i (stdout_buffer ?p @ concat (map fst (take k sched)))"
    "p1 = ?p\<lparr>stdout_buffer := stdout_buffer ?p @ concat (map fst (take k sched)),
               stderr_buffer := stderr_buffer ?p @ concat (map snd (take k sched))\<rparr>"
    by (rule poll_found)
  define b where "b = stdout_buffer p @ concat (map fst (take k sched))"
  define before where "before = take i b"
  from k0(3) have f: "find_sub sentinel b = Some i" by (simp add: b_def)
  from k0(4) r(3) have o: "out = strip_newline before" by (simp add: b_def before_def)
  from k0(5) r(4) have e: "err = strip_newline (stderr_buffer p @ concat (map snd (take k sched)))"
    by simp
  from find_sub_Some_split [OF f] obtain after where
    split: "b = before @ sentinel @ after" unfolding before_def by blast
  from find_sub_Some_le [OF f] have len: "length before = i" by (simp add: before_def)
  have first: "find_sub sentinel (before @ sentinel @ after) = Some (length before)"
    using f unfolding len split [symmetric] .
  have p': "process s' = Some (p1\<lparr>stdout_buffer := [], stderr_buffer := []\<rparr>)"
    by (simp add: r(5))
  have buf: "stdout_buffer (p1\<lparr>stdout_buffer := [], stderr_buffer := []\<rparr>) = []"
    "stderr_buffer (p1\<lparr>stdout_buffer := [], stderr_buffer := []\<rparr>) = []"
    by simp_all
  from r(1) p' k0(1,2) split [unfolded b_def] first o e buf show ?thesis
    by blast
qed

text \<open>
  The theorem at the first of the two concrete calls.
\<close>

theorem run_discards_from_sentinel_witness:
  "\<exists>p p' k before after.
      process (start new_session) = Some p
      \<and> process \<lparr>started = True, timed_out = False,
         process = Some \<lparr>returncode = None,
           stdin = ''sh job.sh; echo '' @ CHR 0x27 # ''<<exit>>''
             @ [CHR 0x27, CHR 0x0A],
           stdout_buffer = [], stderr_buffer = [], signals = []\<rparr>\<rparr> = Some p'
      \<and> 0 < k \<and> k \<le> length [(''a\<newline><<exit>>\<newline>b\<newline>'', ''w\<newline>'')]
      \<and> stdout_buffer p
          @ concat (map fst (take k [(''a\<newline><<exit>>\<newline>b\<newline>'', ''w\<newline>'')]))
          = before @ sentinel @ after
      \<and> find_sub sentinel (before @ sentinel @ after) = Some (length before)
      \<and> ''a'' = strip_newline before
      \<and> ''w'' = strip_newline (stderr_buffer p
          @ concat (map snd (take k [(''a\<newline><<exit>>\<newline>b\<newline>'', ''w\<newline>'')])))
      \<and> stdout_buffer p' = [] \<and> stderr_buffer p' = []"
  by (rule run_discards_from_sentinel [OF run_fresh_a_b])

subsection \<open>C10: an empty first call starts a session before it fails\<close>

text \<open>
  Claim C10: \<^verbatim>\<open>forward\<close> without restart, with an empty command, on a tool that has no
  session, raises \<^verbatim>\<open>Exception("no command provided.")\<close> and leaves the tool with a new
  session that is started, with a live shell.
\<close>

theorem forward_empty_without_session:
  assumes "session t = None" and "restart \<noteq> Some True"
  shows "forward t [] restart sched =
      (Inl no_command,
       t\<lparr>session := Some \<lparr>started = True, timed_out = False, process = Some spawned\<rparr>\<rparr>,
       None)"
  using assms by (simp add: forward_def start_new_session)

text \<open>
  The theorem at \<^verbatim>\<open>restart=False\<close>.
\<close>

theorem forward_empty_without_session_witness:
  "forward \<lparr>session = None\<rparr> [] (Some False) [(''<<exit>>\<newline>'', []::string)] =
      (Inl (Exception ''no command provided.''),
       \<lparr>session = Some \<lparr>started = True, timed_out = False,
          process = Some \<lparr>returncode = None, stdin = [], stdout_buffer = [],
            stderr_buffer = [], signals = []\<rparr>\<rparr>\<rparr>,
       None)"
  using forward_empty_without_session [of "\<lparr>session = None\<rparr>" "Some False"
      "[(''<<exit>>\<newline>'', []::string)]"]
  by (simp add: no_command_def spawned_def)

end
